theory Spec2Isabelle
  imports Complex_Main "HOL-Library.Multiset"
begin

section \<open>Synthetic gravity data: \<open>fatiando/potential/synthetic.py\<close>\<close>

text \<open>
  The module has two entry points, \<open>from_prisms\<close> and \<open>from_spheres\<close>. Both evaluate an
  analytic formula of an external library at every observation point and add up the
  contributions of all source bodies. Exceptions are values of the type \<open>error\<close>.

  Numbers are modelled as exact reals. The rounding of the machine floats is outside the
  model, and so is a bound that leaves the range of the doubles; memory is assumed to
  suffice for every array below numpy's size limit. The counts \<open>nx\<close> and \<open>ny\<close> are Python
  integers.
\<close>

subsection \<open>Data model\<close>

datatype error =
    AssertionError string
  | ZeroDivisionError
  | ValueError
  | TypeError
  | IndexError

text \<open>
  The values stored in the data dictionaries: arrays of floats, arrays of integers,
  booleans and integers.
\<close>

datatype pyval = Arr "real list" | IntArr "int list" | PyBool bool | PyInt int

type_synonym pydict = "string \<rightharpoonup> pyval"

text \<open>A prism of the model: the keys \<open>'value'\<close>, \<open>'x1'\<close>, ..., \<open>'z2'\<close> of the source.\<close>

record prism =
  prism_value :: real
  prism_x1 :: real
  prism_x2 :: real
  prism_y1 :: real
  prism_y2 :: real
  prism_z1 :: real
  prism_z2 :: real

text \<open>A sphere of the model: the keys \<open>'density'\<close>, \<open>'radius'\<close>, \<open>'xc'\<close>, \<open>'yc'\<close>, \<open>'zc'\<close>.\<close>

record sphere =
  density :: real
  radius :: real
  xc :: real
  yc :: real
  zc :: real

text \<open>The \<open>height\<close> argument: a scalar or a one-dimensional array.\<close>

datatype height = Scalar real | PerPoint "real list"

subsection \<open>The external formula libraries\<close>

text \<open>
  \<open>fatiando.grav.prism\<close> and \<open>fatiando.grav.sphere\<close> are not part of the module: they are
  parameters of the model. A prism formula takes the property value, the six bounds and
  the point; a sphere formula takes density, radius, centre and the point.
\<close>

type_synonym prism_formula =
  "real \<Rightarrow> real \<Rightarrow> real \<Rightarrow> real \<Rightarrow> real \<Rightarrow> real \<Rightarrow> real \<Rightarrow> real \<Rightarrow> real \<Rightarrow> real \<Rightarrow> real"

type_synonym sphere_formula =
  "real \<Rightarrow> real \<Rightarrow> real \<Rightarrow> real \<Rightarrow> real \<Rightarrow> real \<Rightarrow> real \<Rightarrow> real \<Rightarrow> real"

record prism_lib =
  prism_gz :: prism_formula
  prism_gxx :: prism_formula
  prism_gxy :: prism_formula
  prism_gxz :: prism_formula
  prism_gyy :: prism_formula
  prism_gyz :: prism_formula
  prism_gzz :: prism_formula

record sphere_lib =
  sphere_gz :: sphere_formula
  sphere_gxx :: sphere_formula
  sphere_gyy :: sphere_formula
  sphere_gzz :: sphere_formula

subsection \<open>The numpy operations the module calls\<close>

text \<open>
  \<open>numpy.ones(n)\<close> and \<open>numpy.zeros(n)\<close>, arrays of floats of eight bytes each: a negative
  dimension raises \<open>ValueError\<close>, and so does one whose array would not be smaller than
  \<open>2 ^ 63\<close> bytes.
\<close>

definition np_ones :: "int \<Rightarrow> error + real list" where
  "np_ones n = (if n < 0 \<or> 2 ^ 60 \<le> n then Inl ValueError else Inr (replicate (nat n) 1))"

definition np_zeros :: "int \<Rightarrow> error + real list" where
  "np_zeros n = (if n < 0 \<or> 2 ^ 60 \<le> n then Inl ValueError else Inr (replicate (nat n) 0))"

text \<open>
  \<open>-height * ones\<close> with numpy's broadcasting of one-dimensional shapes: equal lengths
  multiply pointwise, a length of one is stretched, anything else raises \<open>ValueError\<close>.
\<close>

definition neg_height_times :: "height \<Rightarrow> real list \<Rightarrow> error + real list" where
  "neg_height_times h ones =
     (case h of
        Scalar c \<Rightarrow> Inr (map (\<lambda>a. (- c) * a) ones)
      | PerPoint hs \<Rightarrow>
          if length hs = length ones then Inr (map (\<lambda>(c, a). (- c) * a) (zip hs ones))
          else if length hs = 1 then Inr (map (\<lambda>a. (- hd hs) * a) ones)
          else if length ones = 1 then Inr (map (\<lambda>c. (- c) * hd ones) hs)
          else Inl ValueError)"

text \<open>
  \<open>numpy.arange(start, stop, step)\<close>: \<open>ceil((stop - start) / step)\<close> values
  \<open>start + i * step\<close>, none when that number is not positive. The length is a quotient of
  Python numbers, so a zero step raises \<open>ZeroDivisionError\<close>.
\<close>

definition arange :: "real \<Rightarrow> real \<Rightarrow> real \<Rightarrow> error + real list" where
  "arange start stop step =
     (if step = 0 then Inl ZeroDivisionError
      else Inr (map (\<lambda>i. start + real i * step) [0 ..< nat \<lceil>(stop - start) / step\<rceil>]))"

text \<open>
  \<open>numpy.random.uniform(low, high, n)\<close>: the generator is a sequence \<open>rng\<close> of draws
  from the unit interval, read from position \<open>pos\<close> on; a draw \<open>u\<close> gives the sample
  \<open>low + (high - low) * u\<close>.
\<close>

definition uniform :: "(nat \<Rightarrow> real) \<Rightarrow> nat \<Rightarrow> real \<Rightarrow> real \<Rightarrow> int \<Rightarrow> error + real list" where
  "uniform rng pos low high n =
     (if n < 0 then Inl ValueError
      else Inr (map (\<lambda>i. low + (high - low) * rng (pos + i)) [0 ..< nat n]))"

text \<open>\<open>enumerate(zip(xs, ys, zs))\<close>: stops with the shortest of the three.\<close>

definition enumerate_zip ::
  "real list \<Rightarrow> real list \<Rightarrow> real list \<Rightarrow> (nat \<times> real \<times> real \<times> real) list" where
  "enumerate_zip xs ys zs = zip [0 ..< length (zip xs (zip ys zs))] (zip xs (zip ys zs))"

text \<open>
  The numbers of a dictionary entry that is an array, of either type; any other value has
  no length and no items.
\<close>

definition as_array :: "pyval \<Rightarrow> error + real list" where
  "as_array v =
     (case v of
        Arr xs \<Rightarrow> Inr xs
      | IntArr ns \<Rightarrow> Inr (map real_of_int ns)
      | PyBool b \<Rightarrow> Inl TypeError
      | PyInt n \<Rightarrow> Inl TypeError)"

text \<open>
  Storing a float into an element of an integer array converts it as C does: the
  fractional part is dropped. Values are assumed to fit the integer type.
\<close>

definition to_int :: "real \<Rightarrow> int" where
  "to_int r = (if 0 \<le> r then \<lfloor>r\<rfloor> else \<lceil>r\<rceil>)"

subsection \<open>The accumulation loops\<close>

text \<open>
  The inner loop \<open>for body in bodies: value[i] += f(body, point)\<close>; an index outside the
  array raises \<open>IndexError\<close> at the first body.
\<close>

fun body_loop :: "('b \<Rightarrow> real) \<Rightarrow> 'b list \<Rightarrow> nat \<Rightarrow> real list \<Rightarrow> error + real list" where
  "body_loop f [] i val = Inr val"
| "body_loop f (b # bs) i val =
     (if i < length val then body_loop f bs i (val[i := val ! i + f b]) else Inl IndexError)"

text \<open>The outer loop over the enumerated points.\<close>

fun point_loop ::
  "('b \<Rightarrow> real \<Rightarrow> real \<Rightarrow> real \<Rightarrow> real) \<Rightarrow> 'b list \<Rightarrow> (nat \<times> real \<times> real \<times> real) list \<Rightarrow>
     real list \<Rightarrow> error + real list" where
  "point_loop F bodies [] val = Inr val"
| "point_loop F bodies ((i, x, y, z) # rest) val =
     (case body_loop (\<lambda>b. F b x y z) bodies i val of
        Inl e \<Rightarrow> Inl e
      | Inr val' \<Rightarrow> point_loop F bodies rest val')"

text \<open>
  The same two loops on an array of integers: \<open>value[i] += f(...)\<close> adds in floats and
  stores the sum back into the integer element.
\<close>

fun body_loop_int :: "('b \<Rightarrow> real) \<Rightarrow> 'b list \<Rightarrow> nat \<Rightarrow> int list \<Rightarrow> error + int list" where
  "body_loop_int f [] i val = Inr val"
| "body_loop_int f (b # bs) i val =
     (if i < length val
      then body_loop_int f bs i (val[i := to_int (real_of_int (val ! i) + f b)])
      else Inl IndexError)"

fun point_loop_int ::
  "('b \<Rightarrow> real \<Rightarrow> real \<Rightarrow> real \<Rightarrow> real) \<Rightarrow> 'b list \<Rightarrow> (nat \<times> real \<times> real \<times> real) list \<Rightarrow>
     int list \<Rightarrow> error + int list" where
  "point_loop_int F bodies [] val = Inr val"
| "point_loop_int F bodies ((i, x, y, z) # rest) val =
     (case body_loop_int (\<lambda>b. F b x y z) bodies i val of
        Inl e \<Rightarrow> Inl e
      | Inr val' \<Rightarrow> point_loop_int F bodies rest val')"

text \<open>How the two entry points pass a body to its formula.\<close>

definition call_prism :: "prism_formula \<Rightarrow> prism \<Rightarrow> real \<Rightarrow> real \<Rightarrow> real \<Rightarrow> real" where
  "call_prism function p x y z =
     function (prism_value p) (prism_x1 p) (prism_x2 p) (prism_y1 p) (prism_y2 p)
       (prism_z1 p) (prism_z2 p) x y z"

definition call_sphere :: "sphere_formula \<Rightarrow> sphere \<Rightarrow> real \<Rightarrow> real \<Rightarrow> real \<Rightarrow> real" where
  "call_sphere function s x y z =
     function (density s) (radius s) (xc s) (yc s) (zc s) x y z"

subsection \<open>\<open>from_prisms\<close>\<close>

definition quoted :: "string \<Rightarrow> string" where
  "quoted s = [CHR 0x27] @ s @ [CHR 0x27]"

definition invalid_grid_type :: "string \<Rightarrow> error" where
  "invalid_grid_type grid = AssertionError (''Invalid grid type '' @ quoted grid)"

definition invalid_field :: "string \<Rightarrow> error" where
  "invalid_field field = AssertionError (''Invalid gravity field '' @ quoted field)"

definition prism_fields :: "prism_lib \<Rightarrow> string \<rightharpoonup> prism_formula" where
  "prism_fields lib =
     [''gz'' \<mapsto> prism_gz lib, ''gxx'' \<mapsto> prism_gxx lib, ''gxy'' \<mapsto> prism_gxy lib,
      ''gxz'' \<mapsto> prism_gxz lib, ''gyy'' \<mapsto> prism_gyy lib, ''gyz'' \<mapsto> prism_gyz lib,
      ''gzz'' \<mapsto> prism_gzz lib]"

text \<open>The two nested loops of the regular grid: for each \<open>y\<close>, every \<open>x\<close> is appended.\<close>

fun x_loop :: "real \<Rightarrow> real list \<Rightarrow> real list \<times> real list \<Rightarrow> real list \<times> real list" where
  "x_loop y [] (xs, ys) = (xs, ys)"
| "x_loop y (x # x_range) (xs, ys) = x_loop y x_range (xs @ [x], ys @ [y])"

fun y_loop :: "real list \<Rightarrow> real list \<Rightarrow> real list \<times> real list \<Rightarrow> real list \<times> real list" where
  "y_loop [] x_range acc = acc"
| "y_loop (y # y_range) x_range acc = y_loop y_range x_range (x_loop y x_range acc)"

text \<open>The branch \<open>grid == 'regular'\<close>: the coordinates \<open>xs\<close>, \<open>ys\<close> and the new dictionary.\<close>

definition regular_grid ::
  "real \<Rightarrow> real \<Rightarrow> real \<Rightarrow> real \<Rightarrow> int \<Rightarrow> int \<Rightarrow> pydict \<Rightarrow> error + (real list \<times> real list \<times> pydict)" where
  "regular_grid x1 x2 y1 y2 nx ny data =
     (if nx - 1 = 0 then Inl ZeroDivisionError
      else
        let dx = (x2 - x1) / real_of_int (nx - 1) in
        case arange x1 x2 dx of
          Inl e \<Rightarrow> Inl e
        | Inr x_range \<Rightarrow>
            (case (if ny > 1 then arange y1 y2 ((y2 - y1) / real_of_int (ny - 1)) else Inr [y1]) of
               Inl e \<Rightarrow> Inl e
             | Inr y_range \<Rightarrow>
                 let x_range' = (if int (length x_range) < nx then x_range @ [x2] else x_range);
                     y_range' = (if int (length y_range) < ny then y_range @ [y2] else y_range);
                     (xs, ys) = y_loop y_range' x_range' ([], [])
                 in Inr (xs, ys, data(''grid'' \<mapsto> PyBool True, ''nx'' \<mapsto> PyInt nx, ''ny'' \<mapsto> PyInt ny))))"

text \<open>The branch \<open>grid == 'random'\<close>; the draws for \<open>y\<close> follow those for \<open>x\<close>.\<close>

definition random_grid ::
  "(nat \<Rightarrow> real) \<Rightarrow> real \<Rightarrow> real \<Rightarrow> real \<Rightarrow> real \<Rightarrow> int \<Rightarrow> int \<Rightarrow> pydict \<Rightarrow>
     error + (real list \<times> real list \<times> pydict)" where
  "random_grid rng x1 x2 y1 y2 nx ny data =
     (case uniform rng 0 x1 x2 (nx * ny) of
        Inl e \<Rightarrow> Inl e
      | Inr xs \<Rightarrow>
          (case (if ny > 1 then uniform rng (length xs) y1 y2 (nx * ny) else Inr [y1]) of
             Inl e \<Rightarrow> Inl e
           | Inr ys \<Rightarrow> Inr (xs, ys, data(''grid'' \<mapsto> PyBool False))))"

text \<open>
  \<open>from_prisms\<close>. After the first assertion \<open>grid\<close> is one of the two modes, so the two
  \<open>if\<close> statements of the source are the two branches of one conditional. \<open>value\<close> is the
  array stored under \<open>'value'\<close>, so the loop's updates are the dictionary's.
\<close>

definition from_prisms ::
  "prism_lib \<Rightarrow> (nat \<Rightarrow> real) \<Rightarrow> prism list \<Rightarrow> real \<Rightarrow> real \<Rightarrow> real \<Rightarrow> real \<Rightarrow> int \<Rightarrow> int \<Rightarrow>
     height \<Rightarrow> string \<Rightarrow> string \<Rightarrow> error + pydict" where
  "from_prisms lib rng prisms x1 x2 y1 y2 nx ny h field grid =
     (if grid \<notin> set [''regular'', ''random''] then Inl (invalid_grid_type grid)
      else case prism_fields lib field of
        None \<Rightarrow> Inl (invalid_field field)
      | Some function \<Rightarrow>
          (case np_ones (nx * ny) of
             Inl e \<Rightarrow> Inl e
           | Inr ones \<Rightarrow>
          (case neg_height_times h ones of
             Inl e \<Rightarrow> Inl e
           | Inr z \<Rightarrow>
          (case np_zeros (nx * ny) of
             Inl e \<Rightarrow> Inl e
           | Inr val \<Rightarrow>
          (case np_zeros (nx * ny) of
             Inl e \<Rightarrow> Inl e
           | Inr err \<Rightarrow>
          (case (if grid = ''regular''
                 then regular_grid x1 x2 y1 y2 nx ny
                        [''z'' \<mapsto> Arr z, ''value'' \<mapsto> Arr val, ''error'' \<mapsto> Arr err]
                 else random_grid rng x1 x2 y1 y2 nx ny
                        [''z'' \<mapsto> Arr z, ''value'' \<mapsto> Arr val, ''error'' \<mapsto> Arr err]) of
             Inl e \<Rightarrow> Inl e
           | Inr (xs, ys, data) \<Rightarrow>
          (case point_loop (call_prism function) prisms (enumerate_zip xs ys z) val of
             Inl e \<Rightarrow> Inl e
           | Inr val' \<Rightarrow> Inr (data(''x'' \<mapsto> Arr xs, ''y'' \<mapsto> Arr ys, ''value'' \<mapsto> Arr val')))))))))"

subsection \<open>\<open>from_spheres\<close>\<close>

definition missing_key :: "string \<Rightarrow> error" where
  "missing_key k = AssertionError (''Invalid grid. Missing '' @ quoted k @ '' key.'')"

definition sphere_fields :: "sphere_lib \<Rightarrow> string \<rightharpoonup> sphere_formula" where
  "sphere_fields lib =
     [''gz'' \<mapsto> sphere_gz lib, ''gxx'' \<mapsto> sphere_gxx lib, ''gyy'' \<mapsto> sphere_gyy lib,
      ''gzz'' \<mapsto> sphere_gzz lib]"

text \<open>
  \<open>from_spheres\<close> returns nothing and works on the caller's grid: the model returns the
  outcome (an error or \<open>()\<close>) together with the grid as the call leaves it. The array
  \<open>data\<close> is a fresh one; the grid is written once, in the last statement.
  \<open>numpy.zeros_like(grid['x'])\<close> has the length and the element type of \<open>grid['x']\<close>: over
  integer coordinates \<open>data\<close> is an array of integers.
\<close>

definition from_spheres ::
  "sphere_lib \<Rightarrow> sphere list \<Rightarrow> pydict \<Rightarrow> string \<Rightarrow> (error + unit) \<times> pydict" where
  "from_spheres lib spheres grid field =
     (case sphere_fields lib field of
        None \<Rightarrow> (Inl (invalid_field field), grid)
      | Some function \<Rightarrow>
          (case grid ''x'' of
             None \<Rightarrow> (Inl (missing_key ''x''), grid)
           | Some gx \<Rightarrow>
          (case grid ''y'' of
             None \<Rightarrow> (Inl (missing_key ''y''), grid)
           | Some gy \<Rightarrow>
          (case grid ''z'' of
             None \<Rightarrow> (Inl (missing_key ''z''), grid)
           | Some gz \<Rightarrow>
          (case as_array gx of
             Inl e \<Rightarrow> (Inl e, grid)
           | Inr xs \<Rightarrow>
          (case as_array gy of
             Inl e \<Rightarrow> (Inl e, grid)
           | Inr ys \<Rightarrow>
          (case as_array gz of
             Inl e \<Rightarrow> (Inl e, grid)
           | Inr zs \<Rightarrow>
          (case gx of
             IntArr ns \<Rightarrow>
               (case point_loop_int (call_sphere function) spheres (enumerate_zip xs ys zs)
                       (replicate (length ns) 0) of
                  Inl e \<Rightarrow> (Inl e, grid)
                | Inr data \<Rightarrow> (Inr (), grid(''value'' \<mapsto> IntArr data)))
           | _ \<Rightarrow>
               (case point_loop (call_sphere function) spheres (enumerate_zip xs ys zs)
                       (replicate (length xs) 0) of
                  Inl e \<Rightarrow> (Inl e, grid)
                | Inr data \<Rightarrow> (Inr (), grid(''value'' \<mapsto> Arr data)))))))))))"

subsection \<open>Concrete inputs for the examples\<close>

text \<open>Libraries whose \<open>gz\<close> is constantly one and whose other components are zero.\<close>

definition unit_prism_lib :: prism_lib where
  "unit_prism_lib = \<lparr>prism_gz = (\<lambda>v a b c d e f x y z. 1), prism_gxx = (\<lambda>v a b c d e f x y z. 0),
     prism_gxy = (\<lambda>v a b c d e f x y z. 0), prism_gxz = (\<lambda>v a b c d e f x y z. 0),
     prism_gyy = (\<lambda>v a b c d e f x y z. 0), prism_gyz = (\<lambda>v a b c d e f x y z. 0),
     prism_gzz = (\<lambda>v a b c d e f x y z. 0)\<rparr>"

definition unit_sphere_lib :: sphere_lib where
  "unit_sphere_lib = \<lparr>sphere_gz = (\<lambda>d r a b c x y z. 1), sphere_gxx = (\<lambda>d r a b c x y z. 0),
     sphere_gyy = (\<lambda>d r a b c x y z. 0), sphere_gzz = (\<lambda>d r a b c x y z. 0)\<rparr>"

text \<open>A generator whose every draw is one half.\<close>

definition half_rng :: "nat \<Rightarrow> real" where
  "half_rng i = 1 / 2"

definition box :: prism where
  "box = \<lparr>prism_value = 1000, prism_x1 = 4, prism_x2 = 6, prism_y1 = 4, prism_y2 = 6,
     prism_z1 = 1, prism_z2 = 2\<rparr>"

definition ball :: sphere where
  "ball = \<lparr>density = 1000, radius = 1, xc = 5, yc = 5, zc = 3\<rparr>"

definition line_grid :: pydict where
  "line_grid = [''x'' \<mapsto> Arr [0, 5], ''y'' \<mapsto> Arr [0, 0], ''z'' \<mapsto> Arr [-1, -1],
     ''grid'' \<mapsto> PyBool False]"

definition grid_without_z :: pydict where
  "grid_without_z = [''x'' \<mapsto> Arr [0, 5], ''y'' \<mapsto> Arr [0, 0]]"

text \<open>The same profile with integer coordinates, as \<open>numpy.array([0, 5])\<close> gives them.\<close>

definition int_grid :: pydict where
  "int_grid = [''x'' \<mapsto> IntArr [0, 5], ''y'' \<mapsto> IntArr [0, 0], ''z'' \<mapsto> IntArr [-1, -1]]"

text \<open>A library whose \<open>gz\<close> is constantly one half, and one whose \<open>gz\<close> is the density.\<close>

definition half_sphere_lib :: sphere_lib where
  "half_sphere_lib = \<lparr>sphere_gz = (\<lambda>d r a b c x y z. 1 / 2), sphere_gxx = (\<lambda>d r a b c x y z. 0),
     sphere_gyy = (\<lambda>d r a b c x y z. 0), sphere_gzz = (\<lambda>d r a b c x y z. 0)\<rparr>"

definition density_sphere_lib :: sphere_lib where
  "density_sphere_lib = \<lparr>sphere_gz = (\<lambda>d r a b c x y z. d), sphere_gxx = (\<lambda>d r a b c x y z. 0),
     sphere_gyy = (\<lambda>d r a b c x y z. 0), sphere_gzz = (\<lambda>d r a b c x y z. 0)\<rparr>"

definition heavy :: sphere where
  "heavy = \<lparr>density = 1, radius = 1, xc = 5, yc = 5, zc = 3\<rparr>"

definition light :: sphere where
  "light = \<lparr>density = - 1 / 2, radius = 1, xc = 5, yc = 5, zc = 3\<rparr>"

section \<open>Verification\<close>

subsection \<open>The loops\<close>

lemma body_loop_in:
  "i < length val \<Longrightarrow> body_loop f bs i val = Inr (val[i := val ! i + sum_list (map f bs)])"
  by (induction bs arbitrary: val) (simp_all add: add.assoc)

lemma body_loop_out:
  "\<not> i < length val \<Longrightarrow> body_loop f bs i val = (if bs = [] then Inr val else Inl IndexError)"
  by (cases bs) simp_all

lemma sum_list_map_mset:
  fixes f :: "'b \<Rightarrow> real"
  shows "mset bs = mset bs' \<Longrightarrow> sum_list (map f bs) = sum_list (map f bs')"
proof -
  assume "mset bs = mset bs'"
  then have "mset (map f bs) = mset (map f bs')" by simp
  then have "sum_mset (mset (map f bs)) = sum_mset (mset (map f bs'))" by (rule arg_cong)
  then show ?thesis by (simp only: sum_mset_sum_list)
qed

lemma body_loop_mset:
  assumes "mset bs = mset bs'"
  shows "body_loop f bs i val = body_loop f bs' i val"
proof (cases "i < length val")
  case True
  then show ?thesis by (simp add: body_loop_in sum_list_map_mset [OF assms])
next
  case False
  from assms have "bs = [] \<longleftrightarrow> bs' = []" by (metis mset_zero_iff)
  with False show ?thesis by (simp add: body_loop_out)
qed

lemma point_loop_mset:
  "mset bs = mset bs' \<Longrightarrow> point_loop F bs pts val = point_loop F bs' pts val"
proof (induction pts arbitrary: val)
  case Nil
  show ?case by simp
next
  case (Cons p pts)
  obtain i x y z where p: "p = (i, x, y, z)" by (cases p) auto
  have "body_loop (\<lambda>b. F b x y z) bs i val = body_loop (\<lambda>b. F b x y z) bs' i val"
    using Cons.prems by (rule body_loop_mset)
  then show ?case using Cons.IH [OF Cons.prems] by (simp add: p split: sum.splits)
qed

lemma point_loop_no_bodies: "point_loop F [] pts val = Inr val"
  by (induction pts arbitrary: val) auto

lemma x_loop_eq: "x_loop y x_range (xs, ys) = (xs @ x_range, ys @ replicate (length x_range) y)"
  by (induction x_range arbitrary: xs ys) (simp_all add: replicate_app_Cons_same)

lemma y_loop_eq:
  "y_loop y_range x_range (xs, ys) =
     (xs @ concat (map (\<lambda>y. x_range) y_range),
      ys @ concat (map (\<lambda>y. replicate (length x_range) y) y_range))"
  by (induction y_range arbitrary: xs ys) (simp_all add: x_loop_eq)

subsection \<open>The regular grid\<close>

lemma length_concat_const: "length (concat (map (\<lambda>y. xr) yr)) = length yr * length xr"
  by (induction yr) simp_all

lemma length_concat_replicate: "length (concat (map (replicate n) yr)) = length yr * n"
  by (induction yr) simp_all

lemma nth_concat_const:
  "j < length yr \<Longrightarrow> i < length xr \<Longrightarrow> concat (map (\<lambda>y. xr) yr) ! (j * length xr + i) = xr ! i"
proof (induction yr arbitrary: j)
  case Nil
  then show ?case by simp
next
  case (Cons y yr)
  show ?case
  proof (cases j)
    case 0
    with Cons.prems show ?thesis by (simp add: nth_append)
  next
    case (Suc j')
    with Cons.prems have "j' < length yr" by simp
    from Cons.IH [OF this Cons.prems(2)] Suc show ?thesis
      by (simp add: nth_append add.assoc)
  qed
qed

lemma nth_concat_replicate:
  "j < length yr \<Longrightarrow> i < n \<Longrightarrow> concat (map (replicate n) yr) ! (j * n + i) = yr ! j"
proof (induction yr arbitrary: j)
  case Nil
  then show ?case by simp
next
  case (Cons y yr)
  show ?case
  proof (cases j)
    case 0
    with Cons.prems show ?thesis by (simp add: nth_append)
  next
    case (Suc j')
    with Cons.prems have "j' < length yr" by simp
    from Cons.IH [OF this Cons.prems(2)] Suc show ?thesis
      by (simp add: nth_append add.assoc)
  qed
qed

lemma last_concat_const:
  "yr \<noteq> [] \<Longrightarrow> xr \<noteq> [] \<Longrightarrow> last (concat (map (\<lambda>y. xr) yr)) = last xr"
  by (induction yr) (auto simp: last_append)

lemma last_concat_replicate:
  "yr \<noteq> [] \<Longrightarrow> 0 < n \<Longrightarrow> last (concat (map (replicate n) yr)) = last yr"
  by (induction yr) (auto simp: last_append)

lemma ceiling_steps:
  fixes a b :: real and n :: int
  assumes "a \<noteq> b" "n \<noteq> 1"
  shows "\<lceil>(b - a) / ((b - a) / real_of_int (n - 1))\<rceil> = n - 1"
proof -
  from assms have "(b - a) / ((b - a) / real_of_int (n - 1)) = real_of_int (n - 1)"
    by simp
  then show ?thesis by (simp only: ceiling_of_int)
qed

lemma arange_steps:
  assumes "a \<noteq> b" "2 \<le> n"
  shows "arange a b ((b - a) / real_of_int (n - 1)) =
           Inr (map (\<lambda>i. a + real i * ((b - a) / real_of_int (n - 1))) [0 ..< nat (n - 1)])"
proof -
  from assms have "(b - a) / real_of_int (n - 1) \<noteq> 0" by simp
  moreover from assms have "\<lceil>(b - a) / ((b - a) / real_of_int (n - 1))\<rceil> = n - 1"
    by (intro ceiling_steps) auto
  ultimately show ?thesis unfolding arange_def by (simp only: if_False)
qed

lemma arange_Inr_step: "arange a b d = Inr r \<Longrightarrow> d \<noteq> 0"
  by (auto simp: arange_def split: if_splits)

lemma regular_grid_Inr:
  assumes "regular_grid x1 x2 y1 y2 nx ny data = Inr (xs, ys, d)" "2 \<le> nx" "2 \<le> ny"
  shows "\<exists>xr yr. length xr = nat nx \<and> length yr = nat ny \<and> hd xr = x1 \<and> last xr = x2 \<and>
           hd yr = y1 \<and> last yr = y2 \<and> xs = concat (map (\<lambda>y. xr) yr) \<and>
           ys = concat (map (replicate (nat nx)) yr) \<and>
           d = data(''grid'' \<mapsto> PyBool True, ''nx'' \<mapsto> PyInt nx, ''ny'' \<mapsto> PyInt ny)"
proof -
  let ?dx = "(x2 - x1) / real_of_int (nx - 1)"
  let ?dy = "(y2 - y1) / real_of_int (ny - 1)"
  from assms obtain r where r: "arange x1 x2 ?dx = Inr r"
    by (auto simp: regular_grid_def Let_def split: if_splits sum.splits)
  with assms obtain s where s: "arange y1 y2 ?dy = Inr s"
    by (auto simp: regular_grid_def Let_def split: if_splits sum.splits)
  from r assms(2) have x: "x1 \<noteq> x2" by (auto dest!: arange_Inr_step)
  from s assms(3) have y: "y1 \<noteq> y2" by (auto dest!: arange_Inr_step)
  let ?xr = "map (\<lambda>i. x1 + real i * ?dx) [0 ..< nat (nx - 1)] @ [x2]"
  let ?yr = "map (\<lambda>i. y1 + real i * ?dy) [0 ..< nat (ny - 1)] @ [y2]"
  have r': "r = map (\<lambda>i. x1 + real i * ?dx) [0 ..< nat (nx - 1)]"
    using r arange_steps [OF x assms(2)] by simp
  have s': "s = map (\<lambda>i. y1 + real i * ?dy) [0 ..< nat (ny - 1)]"
    using s arange_steps [OF y assms(3)] by simp
  have lx: "length ?xr = nat nx" using assms(2) by simp
  have ly: "length ?yr = nat ny" using assms(3) by simp
  have res: "regular_grid x1 x2 y1 y2 nx ny data =
      Inr (concat (map (\<lambda>y. ?xr) ?yr), concat (map (replicate (length ?xr)) ?yr),
           data(''grid'' \<mapsto> PyBool True, ''nx'' \<mapsto> PyInt nx, ''ny'' \<mapsto> PyInt ny))"
    using assms(2,3) unfolding regular_grid_def Let_def r s r' s' y_loop_eq
    by (simp del: map_append upt_Suc)
  have hx: "hd ?xr = x1" using assms(2) by (simp add: hd_append hd_map upt_rec [of 0])
  have hy: "hd ?yr = y1" using assms(3) by (simp add: hd_append hd_map upt_rec [of 0])
  show ?thesis
    apply (rule exI [of _ ?xr], rule exI [of _ ?yr])
    using res assms(1) lx ly hx hy by (simp del: map_append upt_Suc)
qed


subsection \<open>A successful run of \<open>from_prisms\<close>\<close>

lemma from_prisms_Inr:
  assumes "from_prisms lib rng prisms x1 x2 y1 y2 nx ny h field grid = Inr data"
  obtains fn z xs ys d val' where
    "grid = ''regular'' \<or> grid = ''random''"
    "prism_fields lib field = Some fn"
    "0 \<le> nx * ny"
    "neg_height_times h (replicate (nat (nx * ny)) 1) = Inr z"
    "(if grid = ''regular''
      then regular_grid x1 x2 y1 y2 nx ny
             [''z'' \<mapsto> Arr z, ''value'' \<mapsto> Arr (replicate (nat (nx * ny)) 0),
              ''error'' \<mapsto> Arr (replicate (nat (nx * ny)) 0)]
      else random_grid rng x1 x2 y1 y2 nx ny
             [''z'' \<mapsto> Arr z, ''value'' \<mapsto> Arr (replicate (nat (nx * ny)) 0),
              ''error'' \<mapsto> Arr (replicate (nat (nx * ny)) 0)]) = Inr (xs, ys, d)"
    "point_loop (call_prism fn) prisms (enumerate_zip xs ys z)
       (replicate (nat (nx * ny)) 0) = Inr val'"
    "data = d(''x'' \<mapsto> Arr xs, ''y'' \<mapsto> Arr ys, ''value'' \<mapsto> Arr val')"
  using assms unfolding from_prisms_def np_ones_def np_zeros_def
  by (simp split: if_splits option.splits sum.splits prod.splits)

lemma regular_grid_dict:
  "regular_grid x1 x2 y1 y2 nx ny data = Inr (xs, ys, d) \<Longrightarrow>
     d = data(''grid'' \<mapsto> PyBool True, ''nx'' \<mapsto> PyInt nx, ''ny'' \<mapsto> PyInt ny)"
  by (auto simp: regular_grid_def Let_def split: if_splits sum.splits prod.splits)

lemma random_grid_dict:
  "random_grid rng x1 x2 y1 y2 nx ny data = Inr (xs, ys, d) \<Longrightarrow>
     d = data(''grid'' \<mapsto> PyBool False)"
  by (auto simp: random_grid_def split: if_splits sum.splits)

lemma from_prisms_z_entry:
  assumes "from_prisms lib rng prisms x1 x2 y1 y2 nx ny h field grid = Inr data"
  shows "\<exists>z. neg_height_times h (replicate (nat (nx * ny)) 1) = Inr z \<and> data ''z'' = Some (Arr z)"
proof -
  from assms obtain fn z xs ys d val' where
    z: "neg_height_times h (replicate (nat (nx * ny)) 1) = Inr z"
    and g: "(if grid = ''regular''
      then regular_grid x1 x2 y1 y2 nx ny
             [''z'' \<mapsto> Arr z, ''value'' \<mapsto> Arr (replicate (nat (nx * ny)) 0),
              ''error'' \<mapsto> Arr (replicate (nat (nx * ny)) 0)]
      else random_grid rng x1 x2 y1 y2 nx ny
             [''z'' \<mapsto> Arr z, ''value'' \<mapsto> Arr (replicate (nat (nx * ny)) 0),
              ''error'' \<mapsto> Arr (replicate (nat (nx * ny)) 0)]) = Inr (xs, ys, d)"
    and d: "data = d(''x'' \<mapsto> Arr xs, ''y'' \<mapsto> Arr ys, ''value'' \<mapsto> Arr val')"
    by (rule from_prisms_Inr)
  have "d ''z'' = Some (Arr z)"
  proof (cases "grid = ''regular''")
    case True
    with g show ?thesis by (auto dest!: regular_grid_dict)
  next
    case False
    with g show ?thesis by (auto dest!: random_grid_dict)
  qed
  with z d show ?thesis by simp
qed

lemma neg_height_times_Scalar:
  "neg_height_times (Scalar c) (replicate n 1) = Inr (replicate n (- c))"
  by (simp add: neg_height_times_def map_replicate_const)

lemma neg_height_times_PerPoint:
  "length hs = n \<Longrightarrow> neg_height_times (PerPoint hs) (replicate n 1) = Inr (map uminus hs)"
  by (auto simp: neg_height_times_def zip_replicate2 intro!: nth_equalityI)

lemma neg_height_times_length:
  "neg_height_times h (replicate n 1) = Inr z \<Longrightarrow> n \<noteq> 1 \<Longrightarrow> length z = n"
  by (auto simp: neg_height_times_def split: height.splits if_splits)

subsection \<open>The sums the loops compute\<close>

lemma point_loop_enum:
  "k + length pts \<le> length val \<Longrightarrow>
     \<exists>val'. point_loop F bs (zip [k ..< k + length pts] pts) val = Inr val' \<and>
            length val' = length val \<and>
            (\<forall>j < length val. val' ! j =
               (if k \<le> j \<and> j < k + length pts
                then val ! j + (case pts ! (j - k) of (x, y, z) \<Rightarrow> sum_list (map (\<lambda>b. F b x y z) bs))
                else val ! j))"
proof (induction pts arbitrary: k val)
  case Nil
  then show ?case by simp
next
  case (Cons p pts)
  obtain x y z where p: "p = (x, y, z)" by (cases p) auto
  let ?S = "sum_list (map (\<lambda>b. F b x y z) bs)"
  let ?val1 = "val[k := val ! k + ?S]"
  from Cons.prems have k: "k < length val" by simp
  have unroll: "zip [k ..< k + length (p # pts)] (p # pts) =
                  (k, x, y, z) # zip [Suc k ..< Suc k + length pts] pts"
    by (simp add: upt_conv_Cons p del: upt_Suc)
  from Cons.prems have "Suc k + length pts \<le> length ?val1" by simp
  from Cons.IH [OF this] obtain val' where
    run: "point_loop F bs (zip [Suc k ..< Suc k + length pts] pts) ?val1 = Inr val'"
    and len: "length val' = length ?val1"
    and nth: "\<forall>j < length ?val1. val' ! j =
               (if Suc k \<le> j \<and> j < Suc k + length pts
                then ?val1 ! j + (case pts ! (j - Suc k) of (x, y, z) \<Rightarrow> sum_list (map (\<lambda>b. F b x y z) bs))
                else ?val1 ! j)"
    by blast
  have step: "point_loop F bs (zip [k ..< k + length (p # pts)] (p # pts)) val = Inr val'"
    unfolding unroll using k run by (simp add: body_loop_in)
  have "val' ! j =
          (if k \<le> j \<and> j < k + length (p # pts)
           then val ! j + (case (p # pts) ! (j - k) of (x, y, z) \<Rightarrow> sum_list (map (\<lambda>b. F b x y z) bs))
           else val ! j)" if j: "j < length val" for j
  proof (cases "j = k")
    case True
    with nth k show ?thesis by (simp add: p)
  next
    case False
    show ?thesis
    proof (cases "k < j")
      case True
      then have "j - k = Suc (j - Suc k)" by simp
      with nth j True False show ?thesis by auto
    next
      case False
      with \<open>j \<noteq> k\<close> nth j show ?thesis by simp
    qed
  qed
  with step len show ?case by simp
qed

lemma point_loop_enumerate_zip:
  assumes "length xs \<le> length val"
  shows "\<exists>val'. point_loop F bs (enumerate_zip xs ys zs) val = Inr val' \<and>
            length val' = length val \<and>
            (\<forall>i < length val. val' ! i =
               (if i < length xs \<and> i < length ys \<and> i < length zs
                then val ! i + sum_list (map (\<lambda>b. F b (xs ! i) (ys ! i) (zs ! i)) bs)
                else val ! i))"
proof -
  let ?pts = "zip xs (zip ys zs)"
  from assms have "0 + length ?pts \<le> length val" by simp
  from point_loop_enum [OF this, where F = F and bs = bs] obtain val' where
    run: "point_loop F bs (zip [0 ..< 0 + length ?pts] ?pts) val = Inr val'"
    and len: "length val' = length val"
    and nth: "\<forall>j < length val. val' ! j =
               (if 0 \<le> j \<and> j < 0 + length ?pts
                then val ! j + (case ?pts ! (j - 0) of (x, y, z) \<Rightarrow> sum_list (map (\<lambda>b. F b x y z) bs))
                else val ! j)"
    by blast
  from run have "point_loop F bs (enumerate_zip xs ys zs) val = Inr val'"
    by (simp add: enumerate_zip_def)
  moreover from nth have "\<forall>i < length val. val' ! i =
               (if i < length xs \<and> i < length ys \<and> i < length zs
                then val ! i + sum_list (map (\<lambda>b. F b (xs ! i) (ys ! i) (zs ! i)) bs)
                else val ! i)"
    by auto
  ultimately show ?thesis using len by blast
qed

subsection \<open>The errors the entry points raise\<close>

lemma quoted_neq [simp]:
  "''Invalid grid type '' @ a \<noteq> ''Invalid gravity field '' @ b"
  "''Invalid grid. Missing '' @ a \<noteq> ''Invalid gravity field '' @ b"
  by simp_all

lemma regular_grid_error: "regular_grid x1 x2 y1 y2 nx ny data = Inl e \<Longrightarrow> e = ZeroDivisionError"
  by (auto simp: regular_grid_def arange_def Let_def split: if_splits sum.splits prod.splits)

lemma random_grid_error: "random_grid rng x1 x2 y1 y2 nx ny data = Inl e \<Longrightarrow> e = ValueError"
  by (auto simp: random_grid_def uniform_def split: if_splits sum.splits)

lemma body_loop_error: "body_loop f bs i val = Inl e \<Longrightarrow> e = IndexError"
  by (induction bs arbitrary: val) (auto split: if_splits)

lemma point_loop_error: "point_loop F bs pts val = Inl e \<Longrightarrow> e = IndexError"
  by (induction pts arbitrary: val) (auto split: sum.splits dest: body_loop_error)

lemma neg_height_times_error: "neg_height_times h ones = Inl e \<Longrightarrow> e = ValueError"
  by (auto simp: neg_height_times_def split: height.splits if_splits)

lemma from_prisms_error:
  assumes "from_prisms lib rng prisms x1 x2 y1 y2 nx ny h field grid = Inl e"
  shows "e = invalid_grid_type grid \<and> grid \<noteq> ''regular'' \<and> grid \<noteq> ''random'' \<or>
         e = invalid_field field \<and> prism_fields lib field = None \<or>
         e \<in> {ValueError, ZeroDivisionError, IndexError} \<and> prism_fields lib field \<noteq> None"
  using assms unfolding from_prisms_def np_ones_def np_zeros_def
  by (auto split: if_splits option.splits sum.splits prod.splits
        dest: regular_grid_error random_grid_error point_loop_error neg_height_times_error)

lemma prism_fields_dom:
  "dom (prism_fields lib) = {''gz'', ''gxx'', ''gxy'', ''gxz'', ''gyy'', ''gyz'', ''gzz''}"
  by (auto simp: prism_fields_def split: if_splits)

lemma sphere_fields_dom:
  "dom (sphere_fields slib) = {''gz'', ''gxx'', ''gyy'', ''gzz''}"
  by (auto simp: sphere_fields_def split: if_splits)

lemma body_loop_int_error: "body_loop_int f bs i val = Inl e \<Longrightarrow> e = IndexError"
  by (induction bs arbitrary: val) (auto split: if_splits)

lemma point_loop_int_error: "point_loop_int F bs pts val = Inl e \<Longrightarrow> e = IndexError"
  by (induction pts arbitrary: val) (auto split: sum.splits dest: body_loop_int_error)

lemma point_loop_int_no_bodies: "point_loop_int F [] pts val = Inr val"
  by (induction pts arbitrary: val) auto

lemma from_spheres_error:
  assumes "fst (from_spheres slib spheres grid field) = Inl e"
  shows "e = invalid_field field \<and> sphere_fields slib field = None \<or>
         e \<in> {missing_key ''x'', missing_key ''y'', missing_key ''z'', TypeError, IndexError} \<and>
           sphere_fields slib field \<noteq> None"
  using assms unfolding from_spheres_def
  by (auto simp: as_array_def split: option.splits sum.splits pyval.splits
        dest: point_loop_error point_loop_int_error)

lemma from_spheres_failure_frame:
  "fst (from_spheres slib spheres grid field) = Inl e \<Longrightarrow>
     snd (from_spheres slib spheres grid field) = grid"
  unfolding from_spheres_def
  by (auto split: option.splits sum.splits pyval.splits)

subsection \<open>The random grid\<close>

text \<open>
  With draws from the unit interval and \<open>ny > 1\<close> the random grid has \<open>nx * ny\<close> points inside
  the region. With \<open>ny \<le> 1\<close> the entry \<open>'y'\<close> is the one-element list \<open>[y1]\<close>.
\<close>

lemma uniform_range:
  assumes "uniform rng pos low high n = Inr xs" "low \<le> high" "\<forall>i. 0 \<le> rng i \<and> rng i \<le> 1"
  shows "length xs = nat n \<and> (\<forall>x \<in> set xs. low \<le> x \<and> x \<le> high)"
proof -
  have "low \<le> low + (high - low) * u \<and> low + (high - low) * u \<le> high"
    if "0 \<le> u" "u \<le> 1" for u :: real
  proof
    from that assms(2) have "0 \<le> (high - low) * u" by simp
    then show "low \<le> low + (high - low) * u" by simp
    from that assms(2) have "(high - low) * u \<le> (high - low) * 1"
      by (intro mult_left_mono) simp_all
    then show "low + (high - low) * u \<le> high" by simp
  qed
  with assms show ?thesis
    by (auto simp: uniform_def split: if_splits)
qed

lemma from_prisms_random_points:
  assumes run: "from_prisms lib rng prisms x1 x2 y1 y2 nx ny h field ''random'' = Inr data"
    and ny: "1 < ny" and region: "x1 \<le> x2" "y1 \<le> y2"
    and draws: "\<forall>i. 0 \<le> rng i \<and> rng i \<le> 1"
  shows "\<exists>xs ys. data ''x'' = Some (Arr xs) \<and> data ''y'' = Some (Arr ys) \<and>
           length xs = nat (nx * ny) \<and> length ys = nat (nx * ny) \<and>
           (\<forall>x \<in> set xs. x1 \<le> x \<and> x \<le> x2) \<and> (\<forall>y \<in> set ys. y1 \<le> y \<and> y \<le> y2)"
proof -
  from run obtain fn z xs ys d val' where
    g: "(if ''random'' = ''regular''
      then regular_grid x1 x2 y1 y2 nx ny
             [''z'' \<mapsto> Arr z, ''value'' \<mapsto> Arr (replicate (nat (nx * ny)) 0),
              ''error'' \<mapsto> Arr (replicate (nat (nx * ny)) 0)]
      else random_grid rng x1 x2 y1 y2 nx ny
             [''z'' \<mapsto> Arr z, ''value'' \<mapsto> Arr (replicate (nat (nx * ny)) 0),
              ''error'' \<mapsto> Arr (replicate (nat (nx * ny)) 0)]) = Inr (xs, ys, d)"
    and d: "data = d(''x'' \<mapsto> Arr xs, ''y'' \<mapsto> Arr ys, ''value'' \<mapsto> Arr val')"
    by (rule from_prisms_Inr)
  from g ny have x: "uniform rng 0 x1 x2 (nx * ny) = Inr xs"
    and y: "uniform rng (length xs) y1 y2 (nx * ny) = Inr ys"
    by (auto simp: random_grid_def split: sum.splits if_splits)
  from uniform_range [OF x region(1) draws] uniform_range [OF y region(2) draws] d
  show ?thesis by simp
qed

lemma from_prisms_random_single_y:
  assumes run: "from_prisms lib rng prisms x1 x2 y1 y2 nx ny h field ''random'' = Inr data"
    and ny: "ny \<le> 1"
  shows "data ''y'' = Some (Arr [y1]) \<and>
         (\<exists>xs. data ''x'' = Some (Arr xs) \<and> length xs = nat (nx * ny))"
proof -
  from run obtain fn z xs ys d val' where
    g: "(if ''random'' = ''regular''
      then regular_grid x1 x2 y1 y2 nx ny
             [''z'' \<mapsto> Arr z, ''value'' \<mapsto> Arr (replicate (nat (nx * ny)) 0),
              ''error'' \<mapsto> Arr (replicate (nat (nx * ny)) 0)]
      else random_grid rng x1 x2 y1 y2 nx ny
             [''z'' \<mapsto> Arr z, ''value'' \<mapsto> Arr (replicate (nat (nx * ny)) 0),
              ''error'' \<mapsto> Arr (replicate (nat (nx * ny)) 0)]) = Inr (xs, ys, d)"
    and d: "data = d(''x'' \<mapsto> Arr xs, ''y'' \<mapsto> Arr ys, ''value'' \<mapsto> Arr val')"
    by (rule from_prisms_Inr)
  from g ny have "ys = [y1]" and "length xs = nat (nx * ny)"
    by (auto simp: random_grid_def uniform_def split: sum.splits if_splits)
  with d show ?thesis by simp
qed

subsection \<open>Evaluating concrete calls\<close>

lemmas eval_defs = from_prisms_def prism_fields_def np_ones_def np_zeros_def neg_height_times_def
  regular_grid_def arange_def Let_def enumerate_zip_def random_grid_def uniform_def
  unit_prism_lib_def call_prism_def half_rng_def box_def eval_nat_numeral

section \<open>The claims\<close>

text \<open>
  The regular grid in exact arithmetic. A call with \<open>grid = 'regular'\<close>, \<open>nx \<ge> 2\<close> and
  \<open>ny \<ge> 2\<close> that returns, returns \<open>nx * ny\<close> points in row-major order, from \<open>(x1, y1)\<close> to
  \<open>(x2, y2)\<close>: \<open>arange\<close> stops one step short of the end, and the end is appended.

  The two endpoints rest on the exactness. On doubles the quotient \<open>(x2 - x1) / dx\<close> can
  round above \<open>nx - 1\<close>; then \<open>arange\<close> has \<open>nx\<close> values already, nothing is appended, and the
  last value is the rounded \<open>x1 + (nx - 1) * dx\<close>. This is where the code leaves claim C1:
  with \<open>x1 = 10\<close>, \<open>x2 = 1000\<close> and \<open>nx = 8\<close> the last x is \<open>999.9999999999999\<close>.
\<close>

lemma regular_grid_points_exact:
  assumes run: "from_prisms lib rng prisms x1 x2 y1 y2 nx ny h field ''regular'' = Inr data"
    and nx: "2 \<le> nx" and ny: "2 \<le> ny"
  shows "\<exists>xs ys zs. data ''x'' = Some (Arr xs) \<and> data ''y'' = Some (Arr ys) \<and>
           data ''z'' = Some (Arr zs) \<and>
           length xs = nat (nx * ny) \<and> length ys = nat (nx * ny) \<and> length zs = nat (nx * ny) \<and>
           xs ! 0 = x1 \<and> ys ! 0 = y1 \<and> last xs = x2 \<and> last ys = y2 \<and>
           (\<forall>j < nat ny. \<forall>i < nat nx.
              xs ! (j * nat nx + i) = xs ! i \<and> ys ! (j * nat nx + i) = ys ! (j * nat nx))"
proof -
  from run obtain fn z xs ys d val' where
    z: "neg_height_times h (replicate (nat (nx * ny)) 1) = Inr z"
    and g: "(if ''regular'' = ''regular''
      then regular_grid x1 x2 y1 y2 nx ny
             [''z'' \<mapsto> Arr z, ''value'' \<mapsto> Arr (replicate (nat (nx * ny)) 0),
              ''error'' \<mapsto> Arr (replicate (nat (nx * ny)) 0)]
      else random_grid rng x1 x2 y1 y2 nx ny
             [''z'' \<mapsto> Arr z, ''value'' \<mapsto> Arr (replicate (nat (nx * ny)) 0),
              ''error'' \<mapsto> Arr (replicate (nat (nx * ny)) 0)]) = Inr (xs, ys, d)"
    and d: "data = d(''x'' \<mapsto> Arr xs, ''y'' \<mapsto> Arr ys, ''value'' \<mapsto> Arr val')"
    by (rule from_prisms_Inr)
  from g have g': "regular_grid x1 x2 y1 y2 nx ny
             [''z'' \<mapsto> Arr z, ''value'' \<mapsto> Arr (replicate (nat (nx * ny)) 0),
              ''error'' \<mapsto> Arr (replicate (nat (nx * ny)) 0)] = Inr (xs, ys, d)"
    by simp
  from regular_grid_Inr [OF g' nx ny] obtain xr yr where
    lx: "length xr = nat nx" and ly: "length yr = nat ny"
    and hx: "hd xr = x1" and tx: "last xr = x2" and hy: "hd yr = y1" and ty: "last yr = y2"
    and xs: "xs = concat (map (\<lambda>y. xr) yr)" and ys: "ys = concat (map (replicate (nat nx)) yr)"
    by blast
  from nx ny have pos: "0 < nat nx" "0 < nat ny" by simp_all
  with lx ly have ne: "xr \<noteq> []" "yr \<noteq> []" by auto
  have n: "nat (nx * ny) = nat ny * nat nx"
    using nx ny by (simp add: nat_mult_distrib mult.commute)
  from nx ny have "4 \<le> nx * ny"
    using mult_mono [of 2 nx 2 ny] by simp
  then have "nat (nx * ny) \<noteq> 1" by simp
  from neg_height_times_length [OF z this] have lz: "length z = nat (nx * ny)" .
  have dz: "data ''z'' = Some (Arr z)"
    using from_prisms_z_entry [OF run] z by auto
  have len_xs: "length xs = nat (nx * ny)"
    by (simp add: xs length_concat_const lx ly n)
  have len_ys: "length ys = nat (nx * ny)"
    by (simp add: ys length_concat_replicate ly n)
  have nth_xs: "xs ! (j * nat nx + i) = xr ! i" if "j < nat ny" "i < nat nx" for i j
    using nth_concat_const [of j yr i xr] that by (simp add: xs lx ly)
  have nth_ys: "ys ! (j * nat nx + i) = yr ! j" if "j < nat ny" "i < nat nx" for i j
    using nth_concat_replicate [of j yr i "nat nx"] that by (simp add: ys ly)
  have x0: "xs ! 0 = x1"
    using nth_xs [of 0 0] pos ne hx by (simp add: hd_conv_nth)
  have y0: "ys ! 0 = y1"
    using nth_ys [of 0 0] pos ne hy by (simp add: hd_conv_nth)
  have xl: "last xs = x2"
    using last_concat_const [OF ne(2) ne(1)] tx by (simp add: xs)
  have yl: "last ys = y2"
    using last_concat_replicate [OF ne(2) pos(1)] ty by (simp add: ys)
  have rows: "\<forall>j < nat ny. \<forall>i < nat nx.
      xs ! (j * nat nx + i) = xs ! i \<and> ys ! (j * nat nx + i) = ys ! (j * nat nx)"
  proof (intro allI impI)
    fix j i assume j: "j < nat ny" and i: "i < nat nx"
    have "xs ! (j * nat nx + i) = xr ! i" using j i by (rule nth_xs)
    moreover have "xs ! i = xr ! i" using nth_xs [of 0 i] pos i by simp
    moreover have "ys ! (j * nat nx + i) = yr ! j" using j i by (rule nth_ys)
    moreover have "ys ! (j * nat nx) = yr ! j" using nth_ys [of j 0] pos j by simp
    ultimately show "xs ! (j * nat nx + i) = xs ! i \<and> ys ! (j * nat nx + i) = ys ! (j * nat nx)"
      by simp
  qed
  have dx: "data ''x'' = Some (Arr xs)" and dy: "data ''y'' = Some (Arr ys)"
    by (simp_all add: d)
  from dx dy dz len_xs len_ys lz x0 y0 xl yl rows show ?thesis by blast
qed

lemma regular_grid_points_example:
  "\<exists>data xs ys zs. from_prisms unit_prism_lib half_rng [box] 0 10 0 10 2 2 (Scalar 0) ''gz'' ''regular'' = Inr data \<and>
     data ''x'' = Some (Arr xs) \<and> data ''y'' = Some (Arr ys) \<and> data ''z'' = Some (Arr zs) \<and>
     length xs = 4 \<and> length ys = 4 \<and> length zs = 4 \<and>
     xs ! 0 = 0 \<and> ys ! 0 = 0 \<and> last xs = 10 \<and> last ys = 10"
proof -
  obtain data where run:
    "from_prisms unit_prism_lib half_rng [box] 0 10 0 10 2 2 (Scalar 0) ''gz'' ''regular'' = Inr data"
    by (simp add: eval_defs)
  from regular_grid_points_exact [OF run] show ?thesis unfolding run by auto
qed

text \<open>
  Claim C5. With an empty list of bodies both accumulators leave the field at zero at every
  point: \<open>from_prisms\<close> returns \<open>nx * ny\<close> zeros under \<open>'value'\<close>, and \<open>from_spheres\<close> stores
  as many zeros as the grid has x-coordinates, floats over float coordinates and integers
  over integer ones.
\<close>

theorem empty_model_gives_zero_field:
  "(from_prisms lib rng [] x1 x2 y1 y2 nx ny h field g = Inr data \<longrightarrow>
      data ''value'' = Some (Arr (replicate (nat (nx * ny)) 0))) \<and>
   (from_spheres slib [] grid sfield = (Inr (), grid') \<longrightarrow>
      (\<exists>xs. grid ''x'' = Some (Arr xs) \<and> grid' ''value'' = Some (Arr (replicate (length xs) 0))) \<or>
      (\<exists>ns. grid ''x'' = Some (IntArr ns) \<and>
         grid' ''value'' = Some (IntArr (replicate (length ns) 0))))"
proof (intro conjI impI)
  assume run: "from_prisms lib rng [] x1 x2 y1 y2 nx ny h field g = Inr data"
  then show "data ''value'' = Some (Arr (replicate (nat (nx * ny)) 0))"
    by (elim from_prisms_Inr) (simp add: point_loop_no_bodies)
next
  assume "from_spheres slib [] grid sfield = (Inr (), grid')"
  then show "(\<exists>xs. grid ''x'' = Some (Arr xs) \<and> grid' ''value'' = Some (Arr (replicate (length xs) 0))) \<or>
      (\<exists>ns. grid ''x'' = Some (IntArr ns) \<and>
         grid' ''value'' = Some (IntArr (replicate (length ns) 0)))"
    unfolding from_spheres_def
    by (auto simp: point_loop_no_bodies point_loop_int_no_bodies as_array_def
          split: option.splits sum.splits pyval.splits)
qed

theorem empty_model_gives_zero_field_witness:
  "(\<exists>data. from_prisms unit_prism_lib half_rng [] 0 10 0 10 2 2 (Scalar 0) ''gz'' ''regular'' = Inr data \<and>
      data ''value'' = Some (Arr [0, 0, 0, 0])) \<and>
   (\<exists>grid'. from_spheres unit_sphere_lib [] line_grid ''gz'' = (Inr (), grid') \<and>
      grid' ''value'' = Some (Arr [0, 0]))"
proof -
  obtain data where run:
    "from_prisms unit_prism_lib half_rng [] 0 10 0 10 2 2 (Scalar 0) ''gz'' ''regular'' = Inr data"
    by (simp add: eval_defs)
  obtain grid' where run': "from_spheres unit_sphere_lib [] line_grid ''gz'' = (Inr (), grid')"
    by (simp add: from_spheres_def sphere_fields_def line_grid_def as_array_def enumerate_zip_def)
  have x: "line_grid ''x'' = Some (Arr [0, 5])" by (simp add: line_grid_def)
  from empty_model_gives_zero_field [THEN conjunct1, THEN mp, OF run]
    empty_model_gives_zero_field [THEN conjunct2, THEN mp, OF run'] run run' x
  show ?thesis by (auto simp: eval_nat_numeral)
qed

text \<open>
  The order of the bodies. In exact arithmetic the outcome of \<open>from_prisms\<close> is the same for
  any two orders of the same bodies (lists with the same multiset of elements), and so is
  the outcome of \<open>from_spheres\<close> over float coordinates.
\<close>

lemma same_bodies_same_outcome:
  assumes "mset prisms = mset prisms'" "mset spheres = mset spheres'"
    and "\<And>ns. grid ''x'' \<noteq> Some (IntArr ns)"
  shows "from_prisms lib rng prisms x1 x2 y1 y2 nx ny h field g =
         from_prisms lib rng prisms' x1 x2 y1 y2 nx ny h field g \<and>
         from_spheres slib spheres grid sfield = from_spheres slib spheres' grid sfield"
proof
  show "from_prisms lib rng prisms x1 x2 y1 y2 nx ny h field g =
        from_prisms lib rng prisms' x1 x2 y1 y2 nx ny h field g"
    unfolding from_prisms_def by (simp only: point_loop_mset [OF assms(1)])
  show "from_spheres slib spheres grid sfield = from_spheres slib spheres' grid sfield"
    unfolding from_spheres_def using assms(3)
    by (auto simp: point_loop_mset [OF assms(2)] split: option.splits sum.splits pyval.splits)
qed

text \<open>
  Claim C6, at the call \<open>from_spheres([heavy, light], int_grid, 'gz')\<close> and at the same call
  with the two spheres swapped, where \<open>gz\<close> contributes \<open>1\<close> for \<open>heavy\<close> and \<open>- 1 / 2\<close> for
  \<open>light\<close> at every point. Over integer coordinates \<open>data\<close> is an array of integers and every
  \<open>data[i] += ...\<close> drops the fraction: one order stores \<open>0\<close> at each point, the other \<open>1\<close>.
\<close>

theorem from_spheres_integer_grid_order:
  "fst (from_spheres density_sphere_lib [heavy, light] int_grid ''gz'') = Inr () \<and>
   snd (from_spheres density_sphere_lib [heavy, light] int_grid ''gz'') ''value'' =
     Some (IntArr [0, 0]) \<and>
   fst (from_spheres density_sphere_lib [light, heavy] int_grid ''gz'') = Inr () \<and>
   snd (from_spheres density_sphere_lib [light, heavy] int_grid ''gz'') ''value'' =
     Some (IntArr [1, 1])"
  by (simp add: from_spheres_def sphere_fields_def int_grid_def as_array_def enumerate_zip_def
        density_sphere_lib_def call_sphere_def heavy_def light_def to_int_def ceiling_minus
        eval_nat_numeral)

text \<open>
  Claim C7. In the data \<open>from_prisms\<close> returns, \<open>z\<close> is the negated height: a scalar height
  \<open>c\<close> gives \<open>- c\<close> at all \<open>nx * ny\<close> points, and an array of \<open>nx * ny\<close> heights gives its
  pointwise negation.
\<close>

theorem from_prisms_z_is_negated_height:
  assumes "from_prisms lib rng prisms x1 x2 y1 y2 nx ny h field grid = Inr data"
  shows "(\<forall>c. h = Scalar c \<longrightarrow> data ''z'' = Some (Arr (replicate (nat (nx * ny)) (- c)))) \<and>
         (\<forall>hs. h = PerPoint hs \<and> length hs = nat (nx * ny) \<longrightarrow>
            data ''z'' = Some (Arr (map uminus hs)))"
  using from_prisms_z_entry [OF assms]
  by (auto simp: neg_height_times_Scalar neg_height_times_PerPoint)

theorem from_prisms_z_is_negated_height_witness:
  "\<exists>data. from_prisms unit_prism_lib half_rng [box] 0 10 0 10 2 2 (PerPoint [1, 2, 3, 4]) ''gz'' ''regular'' = Inr data \<and>
     data ''z'' = Some (Arr [-1, -2, -3, -4])"
proof -
  obtain data where run:
    "from_prisms unit_prism_lib half_rng [box] 0 10 0 10 2 2 (PerPoint [1, 2, 3, 4]) ''gz'' ''regular'' = Inr data"
    by (simp add: eval_defs)
  from from_prisms_z_is_negated_height [OF run] show ?thesis unfolding run by simp
qed

text \<open>
  Claim C8. A grid mode other than \<open>'regular'\<close> and \<open>'random'\<close> makes \<open>from_prisms\<close> fail with
  the assertion error for the grid type, whatever the other arguments are: nothing is
  generated or computed before.
\<close>

theorem from_prisms_rejects_unknown_grid:
  assumes "grid \<noteq> ''regular''" "grid \<noteq> ''random''"
  shows "from_prisms lib rng prisms x1 x2 y1 y2 nx ny h field grid = Inl (invalid_grid_type grid)"
  using assms by (simp add: from_prisms_def)

theorem from_prisms_rejects_unknown_grid_witness:
  "from_prisms unit_prism_lib half_rng [box] 0 10 0 10 2 2 (Scalar 0) ''gz'' ''scattered'' =
     Inl (invalid_grid_type ''scattered'')"
  using from_prisms_rejects_unknown_grid [of "''scattered''" unit_prism_lib half_rng "[box]" 0 10 0 10 2 2 "Scalar 0" "''gz''"] by simp

text \<open>
  Claim C2, at the call \<open>from_prisms([box], 0, 10, 0, 0, 3, 1, 1, 'gz', 'random')\<close>: with
  \<open>ny = 1\<close> the random branch stores the one-element list \<open>[y1]\<close> under \<open>'y'\<close>, while \<open>'x'\<close>
  and \<open>'z'\<close> have \<open>nx * ny = 3\<close> entries. The loop over \<open>zip(x, y, z)\<close> therefore visits one
  point only, and the field at the second and third point stays zero.
\<close>

theorem from_prisms_random_profile_single_y:
  "\<exists>data. from_prisms unit_prism_lib half_rng [box] 0 10 0 0 3 1 (Scalar 1) ''gz'' ''random'' = Inr data \<and>
     data ''x'' = Some (Arr [5, 5, 5]) \<and> data ''y'' = Some (Arr [0]) \<and>
     data ''z'' = Some (Arr [-1, -1, -1]) \<and> data ''value'' = Some (Arr [1, 0, 0])"
  by (simp add: eval_defs)

text \<open>The regular branch at the same region and counts gives three points sharing \<open>y1\<close>.\<close>

lemma from_prisms_regular_profile:
  "\<exists>data. from_prisms unit_prism_lib half_rng [box] 0 10 0 0 3 1 (Scalar 1) ''gz'' ''regular'' = Inr data \<and>
     data ''x'' = Some (Arr [0, 5, 10]) \<and> data ''y'' = Some (Arr [0, 0, 0]) \<and>
     data ''z'' = Some (Arr [-1, -1, -1]) \<and> data ''value'' = Some (Arr [1, 1, 1])"
  by (simp add: eval_defs)

text \<open>
  Claim C3. \<open>from_spheres\<close> fails with the invalid-field assertion error for every field
  name outside \<open>gz\<close>, \<open>gxx\<close>, \<open>gyy\<close>, \<open>gzz\<close>, leaving the grid as it was, and never raises that
  error for one of these four; \<open>from_prisms\<close> never raises it for one of the seven names
  \<open>gz\<close>, \<open>gxx\<close>, \<open>gxy\<close>, \<open>gxz\<close>, \<open>gyy\<close>, \<open>gyz\<close>, \<open>gzz\<close>.
\<close>

theorem field_component_support:
  "(field \<notin> {''gz'', ''gxx'', ''gyy'', ''gzz''} \<longrightarrow>
      from_spheres slib spheres grid field = (Inl (invalid_field field), grid)) \<and>
   (field \<in> {''gz'', ''gxx'', ''gyy'', ''gzz''} \<longrightarrow>
      fst (from_spheres slib spheres grid field) \<noteq> Inl (invalid_field field)) \<and>
   (field \<in> {''gz'', ''gxx'', ''gxy'', ''gxz'', ''gyy'', ''gyz'', ''gzz''} \<longrightarrow>
      from_prisms lib rng prisms x1 x2 y1 y2 nx ny h field g \<noteq> Inl (invalid_field field))"
proof (intro conjI impI)
  assume "field \<notin> {''gz'', ''gxx'', ''gyy'', ''gzz''}"
  then have "sphere_fields slib field = None"
    using sphere_fields_dom [of slib] by blast
  then show "from_spheres slib spheres grid field = (Inl (invalid_field field), grid)"
    by (simp add: from_spheres_def)
next
  assume "field \<in> {''gz'', ''gxx'', ''gyy'', ''gzz''}"
  then have some: "sphere_fields slib field \<noteq> None"
    using sphere_fields_dom [of slib] by blast
  show "fst (from_spheres slib spheres grid field) \<noteq> Inl (invalid_field field)"
  proof
    assume "fst (from_spheres slib spheres grid field) = Inl (invalid_field field)"
    from from_spheres_error [OF this] some show False
      by (auto simp: invalid_field_def missing_key_def)
  qed
next
  assume "field \<in> {''gz'', ''gxx'', ''gxy'', ''gxz'', ''gyy'', ''gyz'', ''gzz''}"
  then have some: "prism_fields lib field \<noteq> None"
    using prism_fields_dom [of lib] by blast
  show "from_prisms lib rng prisms x1 x2 y1 y2 nx ny h field g \<noteq> Inl (invalid_field field)"
  proof
    assume "from_prisms lib rng prisms x1 x2 y1 y2 nx ny h field g = Inl (invalid_field field)"
    from from_prisms_error [OF this] some show False
      by (auto simp: invalid_field_def invalid_grid_type_def)
  qed
qed

theorem field_component_support_witness:
  "from_spheres unit_sphere_lib [ball] line_grid ''gxy'' = (Inl (invalid_field ''gxy''), line_grid) \<and>
   fst (from_spheres unit_sphere_lib [ball] line_grid ''gzz'') \<noteq> Inl (invalid_field ''gzz'') \<and>
   from_prisms unit_prism_lib half_rng [box] 0 10 0 10 2 2 (Scalar 0) ''gxy'' ''regular'' \<noteq>
     Inl (invalid_field ''gxy'')"
  using field_component_support [of "''gxy''" unit_sphere_lib "[ball]" line_grid]
    field_component_support [of "''gzz''" unit_sphere_lib "[ball]" line_grid]
    field_component_support [of "''gxy''" unit_sphere_lib "[ball]" line_grid unit_prism_lib half_rng "[box]" 0 10 0 10 2 2
      "Scalar 0" "''regular''"]
  by simp

text \<open>
  Claim C4, as stated, fails where the field name is invalid too: the field is checked
  first, so the error is the invalid-field one and not a missing-key one.
\<close>

theorem from_spheres_missing_key_counterexample:
  "grid_without_z ''z'' = None \<and>
   fst (from_spheres unit_sphere_lib [ball] grid_without_z ''gxy'') = Inl (invalid_field ''gxy'') \<and>
   invalid_field ''gxy'' \<noteq> missing_key ''x'' \<and> invalid_field ''gxy'' \<noteq> missing_key ''y'' \<and>
   invalid_field ''gxy'' \<noteq> missing_key ''z''"
  by (simp add: from_spheres_def sphere_fields_def grid_without_z_def invalid_field_def
        missing_key_def)

text \<open>
  Claim C4, amended. Whenever \<open>from_spheres\<close> fails, the grid is unchanged. A grid without
  one of the keys \<open>'x'\<close>, \<open>'y'\<close>, \<open>'z'\<close> makes the call fail with an assertion error: the
  invalid-field error when the field name is not one of the four supported ones, and
  otherwise the missing-key error of the first missing key in the order \<open>x\<close>, \<open>y\<close>, \<open>z\<close>.
\<close>

theorem from_spheres_missing_key:
  "(\<forall>e. fst (from_spheres slib spheres grid field) = Inl e \<longrightarrow>
        snd (from_spheres slib spheres grid field) = grid) \<and>
   (grid ''x'' = None \<or> grid ''y'' = None \<or> grid ''z'' = None \<longrightarrow>
      (field \<notin> {''gz'', ''gxx'', ''gyy'', ''gzz''} \<longrightarrow>
         from_spheres slib spheres grid field = (Inl (invalid_field field), grid)) \<and>
      (field \<in> {''gz'', ''gxx'', ''gyy'', ''gzz''} \<longrightarrow>
         from_spheres slib spheres grid field =
           (Inl (missing_key (if grid ''x'' = None then ''x''
                              else if grid ''y'' = None then ''y'' else ''z'')), grid)))"
proof (intro conjI impI allI)
  fix e assume "fst (from_spheres slib spheres grid field) = Inl e"
  then show "snd (from_spheres slib spheres grid field) = grid"
    by (rule from_spheres_failure_frame)
next
  assume "field \<notin> {''gz'', ''gxx'', ''gyy'', ''gzz''}"
  then have "sphere_fields slib field = None"
    using sphere_fields_dom [of slib] by blast
  then show "from_spheres slib spheres grid field = (Inl (invalid_field field), grid)"
    by (simp add: from_spheres_def)
next
  assume missing: "grid ''x'' = None \<or> grid ''y'' = None \<or> grid ''z'' = None"
    and "field \<in> {''gz'', ''gxx'', ''gyy'', ''gzz''}"
  then obtain fn where "sphere_fields slib field = Some fn"
    using sphere_fields_dom [of slib] by blast
  with missing show "from_spheres slib spheres grid field =
           (Inl (missing_key (if grid ''x'' = None then ''x''
                              else if grid ''y'' = None then ''y'' else ''z'')), grid)"
    by (auto simp: from_spheres_def split: option.splits)
qed

theorem from_spheres_missing_key_witness:
  "from_spheres unit_sphere_lib [ball] grid_without_z ''gz'' = (Inl (missing_key ''z''), grid_without_z) \<and>
   from_spheres unit_sphere_lib [ball] grid_without_z ''gxy'' = (Inl (invalid_field ''gxy''), grid_without_z)"
proof -
  have m: "grid_without_z ''x'' \<noteq> None" "grid_without_z ''y'' \<noteq> None" "grid_without_z ''z'' = None"
    by (simp_all add: grid_without_z_def)
  from from_spheres_missing_key [of unit_sphere_lib "[ball]" grid_without_z "''gz''"]
    from_spheres_missing_key [of unit_sphere_lib "[ball]" grid_without_z "''gxy''"] m
  show ?thesis by simp
qed

text \<open>
  What a successful call of \<open>from_spheres\<close> writes. It returns nothing and changes the grid
  at the key \<open>'value'\<close> only. Over float coordinates the new entry has one number for every
  x-coordinate: the sum of the formula over all spheres at the points that \<open>zip(x, y, z)\<close>
  reaches, and zero beyond.
\<close>

lemma from_spheres_frame:
  assumes "from_spheres slib spheres grid field = (Inr (), grid')"
  shows "\<exists>v. grid' = grid(''value'' \<mapsto> v) \<and> (\<forall>k. k \<noteq> ''value'' \<longrightarrow> grid' k = grid k)"
  using assms unfolding from_spheres_def
  by (auto split: option.splits sum.splits pyval.splits)

lemma from_spheres_float_sums:
  assumes "from_spheres slib spheres grid field = (Inr (), grid')"
    and x: "grid ''x'' = Some (Arr xs)"
  shows "\<exists>fn gy gz ys zs data.
           sphere_fields slib field = Some fn \<and>
           grid ''y'' = Some gy \<and> as_array gy = Inr ys \<and>
           grid ''z'' = Some gz \<and> as_array gz = Inr zs \<and>
           grid' = grid(''value'' \<mapsto> Arr data) \<and>
           length data = length xs \<and>
           (\<forall>i < length xs. data ! i =
              (if i < length ys \<and> i < length zs
               then sum_list (map (\<lambda>s. call_sphere fn s (xs ! i) (ys ! i) (zs ! i)) spheres)
               else 0))"
proof -
  from assms obtain fn gy gz ys zs data where
    fn: "sphere_fields slib field = Some fn"
    and y: "grid ''y'' = Some gy" "as_array gy = Inr ys"
    and z: "grid ''z'' = Some gz" "as_array gz = Inr zs"
    and run: "point_loop (call_sphere fn) spheres (enumerate_zip xs ys zs)
                (replicate (length xs) 0) = Inr data"
    and g: "grid' = grid(''value'' \<mapsto> Arr data)"
    unfolding from_spheres_def
    by (auto simp: as_array_def [of "Arr xs"] split: option.splits sum.splits)
  have "length xs \<le> length (replicate (length xs) (0::real))" by simp
  from point_loop_enumerate_zip [OF this, where F = "call_sphere fn" and bs = spheres
      and ys = ys and zs = zs] run
  have "length data = length xs"
    and "\<forall>i < length xs. data ! i =
              (if i < length ys \<and> i < length zs
               then sum_list (map (\<lambda>s. call_sphere fn s (xs ! i) (ys ! i) (zs ! i)) spheres)
               else 0)"
    by auto
  with fn y z g show ?thesis by blast
qed

text \<open>
  Claim C9, at the call \<open>from_spheres([ball, ball, ball], int_grid, 'gz')\<close>, where \<open>gz\<close>
  contributes one half for every sphere at every point. Over integer coordinates \<open>data\<close> is
  an array of integers, \<open>data[i] += 0.5\<close> stores \<open>0\<close> three times, and the entry \<open>'value'\<close> is
  \<open>[0, 0]\<close>, while the sum of the three contributions is \<open>3 / 2\<close> at both points.
\<close>

theorem from_spheres_integer_grid_truncates:
  "fst (from_spheres half_sphere_lib [ball, ball, ball] int_grid ''gz'') = Inr () \<and>
   snd (from_spheres half_sphere_lib [ball, ball, ball] int_grid ''gz'') ''value'' =
     Some (IntArr [0, 0]) \<and>
   sum_list (map (\<lambda>s. call_sphere (sphere_gz half_sphere_lib) s 0 0 (- 1)) [ball, ball, ball]) = 3 / 2 \<and>
   sum_list (map (\<lambda>s. call_sphere (sphere_gz half_sphere_lib) s 5 0 (- 1)) [ball, ball, ball]) = 3 / 2"
  by (simp add: from_spheres_def sphere_fields_def int_grid_def as_array_def enumerate_zip_def
        half_sphere_lib_def call_sphere_def to_int_def eval_nat_numeral)




end
